theory Spec2Isabelle
  imports Main
begin

section \<open>The disk monitor module: \<^verbatim>\<open>modules/diskmonitor.c\<close>\<close>

text \<open>
  The module keeps five file-scope variables and reacts to events that the host
  process dispatches one at a time. Every C function of the file becomes a HOL
  function from the module's variables to the new variables together with the list of
  calls it made to the outside world, in the order in which it made them.

  Modelling decisions:
  \<^item> \<^verbatim>\<open>time_t\<close> is a signed integer type; its values are integers, negative ones
    included (\<^verbatim>\<open>time(0)\<close> returns \<^verbatim>\<open>(time_t)-1\<close> on failure, and a clock may be
    set before the Epoch). The clock is not part of the module: each handler takes the
    value of every \<^verbatim>\<open>time(0)\<close> call it may make as an argument.
  \<^item> A C \<^verbatim>\<open>int\<close> is an integer; the one place where a wider value is stored into
    an \<^verbatim>\<open>int\<close> (the difference of two \<^verbatim>\<open>time_t\<close> values in
    \<^verbatim>\<open>mce_inactivity_sig\<close>) reduces it to 32 bits, two's complement.
  \<^item> \<^verbatim>\<open>dsme_log\<close> calls, and the sender lookup that only feeds one of them, are left
    out: they neither read nor write the module's variables and send no message.
  \<^item> \<^verbatim>\<open>check_disk_space_usage()\<close> is a call into the backend; what it finds comes
    back later as \<^verbatim>\<open>DSM_MSGTYPE_DISK_SPACE\<close> messages, which are events of their own.
  \<^item> \<^verbatim>\<open>dsme_dbus_bind_methods\<close> and its three siblings live in another file and
    write the two \<^verbatim>\<open>bound\<close> flags through a pointer; the values they leave there
    are arguments of the connect and disconnect handlers.
\<close>

subsection \<open>Module variables and constants\<close>

type_synonym time_t = int

record module_state =
  init_done_received :: bool
  device_active :: bool
  dbus_methods_bound :: bool
  dbus_signals_bound :: bool
  last_check_time :: time_t

definition initial_state :: module_state where
  "initial_state =
     \<lparr> init_done_received = False,
       device_active = False,
       dbus_methods_bound = False,
       dbus_signals_bound = False,
       last_check_time = 0 \<rparr>"

definition ACTIVE_CHECK_INTERVAL :: int where
  "ACTIVE_CHECK_INTERVAL = 300"

definition IDLE_CHECK_INTERVAL :: int where
  "IDLE_CHECK_INTERVAL = 1800"

definition MAXTIME_FROM_LAST_CHECK :: int where
  "MAXTIME_FROM_LAST_CHECK = 900"

definition diskmonitor_service :: string where
  "diskmonitor_service = ''com.nokia.diskmonitor''"

definition diskmonitor_req_interface :: string where
  "diskmonitor_req_interface = ''com.nokia.diskmonitor.request''"

definition diskmonitor_sig_interface :: string where
  "diskmonitor_sig_interface = ''com.nokia.diskmonitor.signal''"

definition diskmonitor_sig_path :: string where
  "diskmonitor_sig_path = ''/com/nokia/diskmonitor/signal''"

definition diskmonitor_disk_space_change_ind :: string where
  "diskmonitor_disk_space_change_ind = ''disk_space_change_ind''"

subsection \<open>Calls to the outside world\<close>

text \<open>
  \<^item> \<open>Check_disk_space_usage\<close>: the call of the backend's \<^verbatim>\<open>check_disk_space_usage()\<close>.
  \<^item> \<open>Broadcast_WAIT mintime maxtime pid data\<close>: \<^verbatim>\<open>broadcast_internally\<close> of a
    \<^verbatim>\<open>DSM_MSGTYPE_WAIT\<close> message with these fields.
  \<^item> \<open>Dbus_reply_new\<close>: the reply built by \<^verbatim>\<open>dsme_dbus_reply_new(request)\<close> and
    handed back through \<^verbatim>\<open>*reply\<close>.
  \<^item> \<open>Dbus_signal_emit path interface name s i\<close>: \<^verbatim>\<open>dsme_dbus_signal_emit\<close> of a
    signal created with \<open>path\<close>, \<open>interface\<close> and \<open>name\<close>, to which the string \<open>s\<close> and
    then the integer \<open>i\<close> were appended.
  \<^item> The last four are the binding calls of the connect and disconnect handlers.
\<close>

datatype effect =
    Check_disk_space_usage
  | Broadcast_WAIT int int int int
  | Dbus_reply_new
  | Dbus_signal_emit string string string string int
  | Dbus_bind_methods string string
  | Dbus_bind_signals
  | Dbus_unbind_methods string string
  | Dbus_unbind_signals

type_synonym handler = "module_state \<Rightarrow> module_state \<times> effect list"

text \<open>Two statements in sequence: the second runs in the state the first left.\<close>

definition then_call :: "handler \<Rightarrow> handler \<Rightarrow> handler" where
  "then_call f g s =
     (case f s of (s1, out1) \<Rightarrow> (case g s1 of (s2, out2) \<Rightarrow> (s2, out1 @ out2)))"

definition skip :: handler where
  "skip s = (s, [])"

subsection \<open>Helpers\<close>

definition disk_check_interval :: "module_state \<Rightarrow> int" where
  "disk_check_interval s =
     (if device_active s then ACTIVE_CHECK_INTERVAL else IDLE_CHECK_INTERVAL)"

definition schedule_next_wakeup :: handler where
  "schedule_next_wakeup s =
     (let mintime = disk_check_interval s;
          maxtime = mintime + 120
      in (s, [Broadcast_WAIT mintime maxtime 0 0]))"

text \<open>
  \<open>check_disk_space t\<close>: the argument is what \<^verbatim>\<open>time(0)\<close> returns after the backend
  call has returned (the comma operator evaluates the call first).
\<close>

definition check_disk_space :: "time_t \<Rightarrow> handler" where
  "check_disk_space t s =
     (if init_done_received s
      then (s\<lparr>last_check_time := t\<rparr>, [Check_disk_space_usage])
      else (s, []))"

subsection \<open>D-Bus handlers\<close>

definition req_check :: "time_t \<Rightarrow> handler" where
  "req_check t = then_call (check_disk_space t) (\<lambda>s. (s, [Dbus_reply_new]))"

definition init_done_ind :: handler where
  "init_done_ind s = (s\<lparr>init_done_received := True\<rparr>, [])"

text \<open>The conversion of a \<^verbatim>\<open>time_t\<close> difference to \<^verbatim>\<open>int\<close>.\<close>

definition int_of_time_diff :: "int \<Rightarrow> int" where
  "int_of_time_diff d = signed_take_bit 31 d"

text \<open>
  \<open>mce_inactivity_sig inactive now t\<close>: \<open>inactive\<close> is the integer of the signal,
  \<open>now\<close> the value of \<^verbatim>\<open>time(0)\<close> at entry, \<open>t\<close> its value inside
  \<^verbatim>\<open>check_disk_space\<close> if that is reached.
\<close>

definition mce_inactivity_sig :: "int \<Rightarrow> time_t \<Rightarrow> time_t \<Rightarrow> handler" where
  "mce_inactivity_sig inactive now t s =
     (let new_device_active_state = (inactive = 0);
          seconds_from_last_check = int_of_time_diff (now - last_check_time s)
      in if new_device_active_state = device_active s then (s, [])
         else
           then_call
             (\<lambda>s1. if device_active s1 \<and> seconds_from_last_check \<ge> MAXTIME_FROM_LAST_CHECK
                   then check_disk_space t s1
                   else skip s1)
             schedule_next_wakeup
             (s\<lparr>device_active := new_device_active_state\<rparr>))"

subsection \<open>Internal message handlers\<close>

definition handle_WAKEUP :: "time_t \<Rightarrow> handler" where
  "handle_WAKEUP t = then_call (check_disk_space t) schedule_next_wakeup"

definition handle_DBUS_CONNECT :: "bool \<Rightarrow> bool \<Rightarrow> handler" where
  "handle_DBUS_CONNECT m g s =
     (s\<lparr>dbus_methods_bound := m, dbus_signals_bound := g\<rparr>,
      [Dbus_bind_methods diskmonitor_service diskmonitor_req_interface, Dbus_bind_signals])"

definition handle_DBUS_DISCONNECT :: "bool \<Rightarrow> bool \<Rightarrow> handler" where
  "handle_DBUS_DISCONNECT m g s =
     (s\<lparr>dbus_methods_bound := m, dbus_signals_bound := g\<rparr>,
      [Dbus_unbind_methods diskmonitor_service diskmonitor_req_interface,
       Dbus_unbind_signals])"

definition handle_DISK_SPACE :: "string \<Rightarrow> int \<Rightarrow> handler" where
  "handle_DISK_SPACE mount_path blocks_percent_used s =
     (s, [Dbus_signal_emit diskmonitor_sig_path diskmonitor_sig_interface
            diskmonitor_disk_space_change_ind mount_path blocks_percent_used])"

subsection \<open>Plugin init and fini\<close>

definition module_init :: handler where
  "module_init = schedule_next_wakeup"

definition module_fini :: handler where
  "module_fini s = (s, [])"

subsection \<open>Event dispatch\<close>

text \<open>
  One constructor per entry of the tables \<^verbatim>\<open>message_handlers\<close>, \<^verbatim>\<open>signals\<close> and
  \<^verbatim>\<open>methods\<close>, carrying the payload of the message and the clock values the handler
  may read.
\<close>

datatype event =
    Wakeup time_t
  | Init_done
  | Mce_inactivity int time_t time_t
  | Req_check time_t
  | Disk_space string int
  | Dbus_connect bool bool
  | Dbus_disconnect bool bool

fun dispatch :: "event \<Rightarrow> handler" where
  "dispatch (Wakeup t) = handle_WAKEUP t"
| "dispatch Init_done = init_done_ind"
| "dispatch (Mce_inactivity inactive now t) = mce_inactivity_sig inactive now t"
| "dispatch (Req_check t) = req_check t"
| "dispatch (Disk_space mount_path blocks_percent_used) =
     handle_DISK_SPACE mount_path blocks_percent_used"
| "dispatch (Dbus_connect m g) = handle_DBUS_CONNECT m g"
| "dispatch (Dbus_disconnect m g) = handle_DBUS_DISCONNECT m g"

text \<open>Events are handled to completion, one after the other.\<close>

fun run :: "event list \<Rightarrow> handler" where
  "run [] = skip"
| "run (e # es) = then_call (dispatch e) (run es)"

text \<open>
  The steps of a run: for each event, the state it found, the event, the state it left
  and the calls it made.
\<close>

record step =
  state_before :: module_state
  handled :: event
  state_after :: module_state
  calls :: "effect list"

fun steps :: "event list \<Rightarrow> module_state \<Rightarrow> step list" where
  "steps [] s = []"
| "steps (e # es) s =
     \<lparr> state_before = s, handled = e,
       state_after = fst (dispatch e s), calls = snd (dispatch e s) \<rparr>
     # steps es (fst (dispatch e s))"

text \<open>The state in which the first event is handled: the one \<^verbatim>\<open>module_init\<close> leaves.\<close>

definition loaded_state :: module_state where
  "loaded_state = fst (module_init initial_state)"

text \<open>The whole life of the module: it is loaded, then the events arrive.\<close>

definition lifetime :: "event list \<Rightarrow> module_state \<times> effect list" where
  "lifetime evs = then_call module_init (run evs) initial_state"

subsection \<open>Observations\<close>

text \<open>
  What the properties below speak about: the wakeup requests among a list of calls
  (as pairs of \<open>mintime\<close> and \<open>maxtime\<close>), the number of backend scans, the D-Bus
  signals emitted, the scan results among a list of events, the clock values an event
  carries, the clock value its scan would store, and the states a run goes through.
\<close>

fun schedule_requests :: "effect list \<Rightarrow> (int \<times> int) list" where
  "schedule_requests [] = []"
| "schedule_requests (Broadcast_WAIT mintime maxtime pid data # out) =
     (mintime, maxtime) # schedule_requests out"
| "schedule_requests (_ # out) = schedule_requests out"

definition probes :: "effect list \<Rightarrow> nat" where
  "probes out = count_list out Check_disk_space_usage"

fun emitted_signals :: "effect list \<Rightarrow> (string \<times> string \<times> string \<times> string \<times> int) list" where
  "emitted_signals [] = []"
| "emitted_signals (Dbus_signal_emit path interface name s i # out) =
     (path, interface, name, s, i) # emitted_signals out"
| "emitted_signals (_ # out) = emitted_signals out"

fun probe_results :: "event list \<Rightarrow> (string \<times> int) list" where
  "probe_results [] = []"
| "probe_results (Disk_space mount_path blocks_percent_used # evs) =
     (mount_path, blocks_percent_used) # probe_results evs"
| "probe_results (_ # evs) = probe_results evs"

fun clock_readings :: "event \<Rightarrow> time_t list" where
  "clock_readings (Wakeup t) = [t]"
| "clock_readings (Mce_inactivity inactive now t) = [now, t]"
| "clock_readings (Req_check t) = [t]"
| "clock_readings _ = []"

fun probe_reading :: "event \<Rightarrow> time_t option" where
  "probe_reading (Wakeup t) = Some t"
| "probe_reading (Mce_inactivity inactive now t) = Some t"
| "probe_reading (Req_check t) = Some t"
| "probe_reading _ = None"

definition trajectory :: "event list \<Rightarrow> module_state \<Rightarrow> module_state list" where
  "trajectory evs s = s # map state_after (steps evs s)"

section \<open>Basic facts\<close>

lemmas handler_defs = then_call_def skip_def schedule_next_wakeup_def check_disk_space_def
  req_check_def init_done_ind_def mce_inactivity_sig_def handle_WAKEUP_def
  handle_DBUS_CONNECT_def handle_DBUS_DISCONNECT_def handle_DISK_SPACE_def module_init_def
  disk_check_interval_def ACTIVE_CHECK_INTERVAL_def IDLE_CHECK_INTERVAL_def
  MAXTIME_FROM_LAST_CHECK_def

lemmas start_defs = lifetime_def loaded_state_def initial_state_def int_of_time_diff_def
  probes_def

lemma then_call_fst: "fst (then_call f g s) = fst (g (fst (f s)))"
  by (simp add: then_call_def split: prod.splits)

lemma then_call_snd: "snd (then_call f g s) = snd (f s) @ snd (g (fst (f s)))"
  by (simp add: then_call_def split: prod.splits)

lemma run_append_fst: "fst (run (xs @ ys) s) = fst (run ys (fst (run xs s)))"
  by (induction xs arbitrary: s) (simp_all add: then_call_fst skip_def)

lemma run_append_snd:
  "snd (run (xs @ ys) s) = snd (run xs s) @ snd (run ys (fst (run xs s)))"
  by (induction xs arbitrary: s) (simp_all add: then_call_fst then_call_snd skip_def)

lemma schedule_requests_append:
  "schedule_requests (xs @ ys) = schedule_requests xs @ schedule_requests ys"
  by (induction xs rule: schedule_requests.induct) simp_all

lemma probes_append: "probes (xs @ ys) = probes xs + probes ys"
  by (induction xs) (simp_all add: probes_def)

lemma emitted_signals_append:
  "emitted_signals (xs @ ys) = emitted_signals xs @ emitted_signals ys"
  by (induction xs rule: emitted_signals.induct) simp_all

lemma probes_zero_iff: "probes out = 0 \<longleftrightarrow> Check_disk_space_usage \<notin> set out"
  by (induction out) (simp_all add: probes_def)

lemma loaded_state_eq: "loaded_state = initial_state"
  by (simp add: loaded_state_def handler_defs Let_def)

subsection \<open>The boot flag along a run\<close>

lemma dispatch_init_done_iff:
  "init_done_received (fst (dispatch e s)) \<longleftrightarrow> e = Init_done \<or> init_done_received s"
  by (cases e) (auto simp: handler_defs Let_def)

lemma run_init_done: "init_done_received s \<Longrightarrow> init_done_received (fst (run es s))"
  by (induction es arbitrary: s) (simp_all add: skip_def then_call_fst dispatch_init_done_iff)

lemma run_init_done_after:
  "init_done_received (fst (run (pre @ Init_done # post) s))"
  by (simp add: run_append_fst then_call_fst run_init_done init_done_ind_def)

lemma steps_init_done:
  "init_done_received s \<Longrightarrow>
     \<forall>st \<in> set (steps es s).
        init_done_received (state_before st) \<and> init_done_received (state_after st)"
proof (induction es arbitrary: s)
  case Nil
  show ?case by simp
next
  case (Cons e es)
  have "init_done_received (fst (dispatch e s))"
    using Cons.prems by (simp add: dispatch_init_done_iff)
  then show ?case
    using Cons.IH [of "fst (dispatch e s)"] Cons.prems by simp
qed

lemma dispatch_probe_needs_init_done:
  "Check_disk_space_usage \<in> set (snd (dispatch e s)) \<Longrightarrow> init_done_received s"
  by (cases e) (auto simp: handler_defs Let_def split: if_splits)

lemma dispatch_no_probe_before_init_done:
  "\<not> init_done_received s \<Longrightarrow> probes (snd (dispatch e s)) = 0"
  using dispatch_probe_needs_init_done [of e s] by (auto simp: probes_zero_iff)

lemma run_no_probe_before_init_done:
  "\<not> init_done_received s \<Longrightarrow> Init_done \<notin> set evs \<Longrightarrow> probes (snd (run evs s)) = 0"
proof (induction evs arbitrary: s)
  case Nil
  show ?case by (simp add: skip_def probes_def)
next
  case (Cons e evs)
  have "\<not> init_done_received (fst (dispatch e s))"
    using Cons.prems by (auto simp: dispatch_init_done_iff)
  then have "probes (snd (run evs (fst (dispatch e s)))) = 0"
    using Cons.IH Cons.prems by simp
  then show ?case
    using Cons.prems
    by (simp add: then_call_snd probes_append dispatch_no_probe_before_init_done)
qed

lemma steps_probe_needs_init_done:
  "\<forall>st \<in> set (steps evs s).
     Check_disk_space_usage \<in> set (calls st) \<longrightarrow> init_done_received (state_before st)"
  by (induction evs arbitrary: s) (simp_all add: dispatch_probe_needs_init_done)

section \<open>The claims\<close>

subsection \<open>C1: the boot gate\<close>

text \<open>
  C1. The backend scan is called only in steps that found \<open>init_done_received\<close> already
  set. From a state where it is not set, a run without the boot-done signal calls the
  scan zero times, whatever wakeups, check requests and activity signals it holds, and
  so does the module's whole life when the signal never comes. Once the flag is set or
  the signal has been handled, \<open>check_disk_space\<close> calls the scan, and so do the wakeup
  handler, the check request and an activity signal that makes the device active with
  a check older than \<open>MAXTIME_FROM_LAST_CHECK\<close>.
\<close>

theorem probe_only_after_init_done:
  "(\<forall>st \<in> set (steps evs s).
      Check_disk_space_usage \<in> set (calls st) \<longrightarrow> init_done_received (state_before st))
   \<and> (\<not> init_done_received s \<and> Init_done \<notin> set evs \<longrightarrow> probes (snd (run evs s)) = 0)
   \<and> (Init_done \<notin> set evs \<longrightarrow> probes (snd (lifetime evs)) = 0)
   \<and> (init_done_received s \<or> Init_done \<in> set evs \<longrightarrow>
        snd (check_disk_space t (fst (run evs s))) = [Check_disk_space_usage]
        \<and> probes (snd (handle_WAKEUP t (fst (run evs s)))) = 1
        \<and> probes (snd (req_check t (fst (run evs s)))) = 1
        \<and> (inactive = 0 \<and> \<not> device_active (fst (run evs s))
             \<and> MAXTIME_FROM_LAST_CHECK
                 \<le> int_of_time_diff (now - (last_check_time (fst (run evs s))))
            \<longrightarrow> probes (snd (mce_inactivity_sig inactive now t (fst (run evs s)))) = 1))"
proof -
  have init: "\<not> init_done_received (fst (module_init initial_state))"
    by (simp add: handler_defs initial_state_def Let_def)
  have a: "Init_done \<notin> set evs \<longrightarrow> probes (snd (lifetime evs)) = 0"
    using run_no_probe_before_init_done [OF init]
    by (simp add: lifetime_def then_call_snd probes_append)
       (simp add: handler_defs probes_def Let_def)
  have booted: "init_done_received (fst (run evs s))"
    if "init_done_received s \<or> Init_done \<in> set evs"
  proof (cases "init_done_received s")
    case True
    then show ?thesis by (rule run_init_done)
  next
    case False
    with that have "Init_done \<in> set evs" by simp
    then obtain pre post where "evs = pre @ Init_done # post"
      by (auto simp: in_set_conv_decomp)
    then show ?thesis
      by (simp add: run_init_done_after)
  qed
  have b: "snd (check_disk_space t s') = [Check_disk_space_usage]
        \<and> probes (snd (handle_WAKEUP t s')) = 1
        \<and> probes (snd (req_check t s')) = 1
        \<and> (inactive = 0 \<and> \<not> device_active s'
             \<and> MAXTIME_FROM_LAST_CHECK \<le> int_of_time_diff (now - last_check_time s')
            \<longrightarrow> probes (snd (mce_inactivity_sig inactive now t s')) = 1)"
    if "init_done_received s'" for s'
    using that by (simp add: handler_defs Let_def probes_def)
  show ?thesis
    using steps_probe_needs_init_done [of evs s] run_no_probe_before_init_done [of s evs]
      a b [OF booted]
    by blast
qed

theorem probe_only_after_init_done_witness:
  "\<not> init_done_received loaded_state
   \<and> Init_done \<notin> set [Wakeup 1000, Mce_inactivity 0 1500 1500, Req_check 1600]
   \<and> probes (snd (run [Wakeup 1000, Mce_inactivity 0 1500 1500, Req_check 1600]
                    loaded_state)) = 0
   \<and> probes (snd (lifetime [Wakeup 1000, Mce_inactivity 0 1500 1500, Req_check 1600])) = 0
   \<and> Init_done \<in> set [Wakeup 1000, Init_done]
   \<and> \<not> device_active (fst (run [Wakeup 1000, Init_done] loaded_state))
   \<and> MAXTIME_FROM_LAST_CHECK
        \<le> int_of_time_diff
             (3000 - (last_check_time (fst (run [Wakeup 1000, Init_done] loaded_state))))
   \<and> probes (snd (handle_WAKEUP 3001 (fst (run [Wakeup 1000, Init_done] loaded_state)))) = 1
   \<and> probes (snd (req_check 3001 (fst (run [Wakeup 1000, Init_done] loaded_state)))) = 1
   \<and> probes (snd (mce_inactivity_sig 0 3000 3001
                    (fst (run [Wakeup 1000, Init_done] loaded_state)))) = 1
   \<and> Check_disk_space_usage
        \<in> set (calls (last (steps [Init_done, Wakeup 2000] loaded_state)))
   \<and> init_done_received (state_before (last (steps [Init_done, Wakeup 2000] loaded_state)))"
proof -
  let ?quiet = "[Wakeup 1000, Mce_inactivity 0 1500 1500, Req_check 1600]"
  let ?boot = "[Wakeup 1000, Init_done]"
  let ?s = "fst (run ?boot loaded_state)"
  let ?st = "last (steps [Init_done, Wakeup 2000] loaded_state)"
  have h1: "\<not> init_done_received loaded_state \<and> Init_done \<notin> set ?quiet"
    by (simp add: loaded_state_eq initial_state_def)
  have h2: "Init_done \<in> set ?boot"
    by simp
  have s: "?s = initial_state\<lparr>init_done_received := True\<rparr>"
    by (simp add: handler_defs loaded_state_eq initial_state_def Let_def)
  have h3: "\<not> device_active ?s
     \<and> MAXTIME_FROM_LAST_CHECK \<le> int_of_time_diff (3000 - last_check_time ?s)"
    unfolding s
    by (simp add: initial_state_def int_of_time_diff_def MAXTIME_FROM_LAST_CHECK_def)
  have h4: "?st \<in> set (steps [Init_done, Wakeup 2000] loaded_state)
     \<and> Check_disk_space_usage \<in> set (calls ?st)"
    by (simp add: handler_defs loaded_state_eq initial_state_def Let_def)
  note quiet = probe_only_after_init_done [of ?quiet loaded_state 3001 0 3000]
  note boot = probe_only_after_init_done [of ?boot loaded_state 3001 0 3000]
  note stepwise = probe_only_after_init_done [of "[Init_done, Wakeup 2000]" loaded_state 3001 0 3000]
  have c1: "probes (snd (run ?quiet loaded_state)) = 0 \<and> probes (snd (lifetime ?quiet)) = 0"
    using quiet h1 by blast
  have c2: "probes (snd (handle_WAKEUP 3001 ?s)) = 1
     \<and> probes (snd (req_check 3001 ?s)) = 1
     \<and> probes (snd (mce_inactivity_sig 0 3000 3001 ?s)) = 1"
    using boot h2 h3 by blast
  have c3: "init_done_received (state_before ?st)"
    using stepwise h4 by blast
  show ?thesis
    using h1 h2 h3 h4 c1 c2 c3 by blast
qed

subsection \<open>C2: an activity signal that changes the state\<close>

lemma int_of_time_diff_in_range:
  "- (2 ^ 31) \<le> d \<Longrightarrow> d < 2 ^ 31 \<Longrightarrow> int_of_time_diff d = d"
  by (simp add: int_of_time_diff_def signed_take_bit_int_eq_self)

text \<open>
  C2, as the code has it. An activity signal whose value differs from \<open>device_active\<close>
  stores the new value and sends exactly one wakeup request, with the interval of the
  new state, as its last call. A signal that makes the device idle does nothing else.
  When the difference \<open>now - last_check_time\<close> fits a 32-bit \<open>int\<close>, the handler is:
  \<open>check_disk_space\<close> first if the device becomes active and the difference is at least
  900, then \<open>schedule_next_wakeup\<close>; so the scan runs once if moreover
  \<open>init_done_received\<close> holds, and not at all otherwise. A module that has never
  checked has \<open>last_check_time = 0\<close>, and the difference is then \<open>now\<close> itself: there
  is no separate notion of a check that never happened.
\<close>

theorem activity_transition:
  "(inactive = 0) \<noteq> device_active s \<longrightarrow>
     device_active (fst (mce_inactivity_sig inactive now t s)) = (inactive = 0)
     \<and> schedule_requests (snd (mce_inactivity_sig inactive now t s)) =
         [(if inactive = 0 then 300 else 1800, if inactive = 0 then 420 else 1920)]
     \<and> last (snd (mce_inactivity_sig inactive now t s)) =
         Broadcast_WAIT (if inactive = 0 then 300 else 1800)
                        (if inactive = 0 then 420 else 1920) 0 0
     \<and> (inactive \<noteq> 0 \<longrightarrow>
          mce_inactivity_sig inactive now t s =
            (s\<lparr>device_active := False\<rparr>, [Broadcast_WAIT 1800 1920 0 0]))
     \<and> (- (2 ^ 31) \<le> now - last_check_time s
          \<and> now - last_check_time s < 2 ^ 31 \<longrightarrow>
          mce_inactivity_sig inactive now t s =
            then_call
              (if inactive = 0 \<and> 900 \<le> now - last_check_time s
               then check_disk_space t else skip)
              schedule_next_wakeup
              (s\<lparr>device_active := (inactive = 0)\<rparr>)
          \<and> probes (snd (mce_inactivity_sig inactive now t s)) =
              (if inactive = 0 \<and> 900 \<le> now - last_check_time s
                  \<and> init_done_received s
               then 1 else 0)
          \<and> last_check_time (fst (mce_inactivity_sig inactive now t s)) =
              (if inactive = 0 \<and> 900 \<le> now - last_check_time s
                  \<and> init_done_received s
               then t else last_check_time s))"
proof (intro impI)
  assume changed: "(inactive = 0) \<noteq> device_active s"
  let ?r = "mce_inactivity_sig inactive now t s"
  let ?d = "now - last_check_time s"
  have general:
    "device_active (fst ?r) = (inactive = 0)
     \<and> schedule_requests (snd ?r) =
         [(if inactive = 0 then 300 else 1800, if inactive = 0 then 420 else 1920)]
     \<and> last (snd ?r) =
         Broadcast_WAIT (if inactive = 0 then 300 else 1800)
                        (if inactive = 0 then 420 else 1920) 0 0
     \<and> (inactive \<noteq> 0 \<longrightarrow>
          ?r = (s\<lparr>device_active := False\<rparr>, [Broadcast_WAIT 1800 1920 0 0]))"
    using changed by (simp add: handler_defs Let_def)
  have in_range:
    "?r = then_call
              (if inactive = 0 \<and> 900 \<le> ?d then check_disk_space t else skip)
              schedule_next_wakeup
              (s\<lparr>device_active := (inactive = 0)\<rparr>)
          \<and> probes (snd ?r) =
              (if inactive = 0 \<and> 900 \<le> ?d \<and> init_done_received s then 1 else 0)
          \<and> last_check_time (fst ?r) =
              (if inactive = 0 \<and> 900 \<le> ?d \<and> init_done_received s
               then t else last_check_time s)"
    if "- (2 ^ 31) \<le> ?d \<and> ?d < 2 ^ 31"
  proof -
    have "int_of_time_diff ?d = ?d"
      using that by (simp add: int_of_time_diff_in_range)
    then show ?thesis
      using changed by (simp add: handler_defs Let_def probes_def)
  qed
  show "device_active (fst ?r) = (inactive = 0)
     \<and> schedule_requests (snd ?r) =
         [(if inactive = 0 then 300 else 1800, if inactive = 0 then 420 else 1920)]
     \<and> last (snd ?r) =
         Broadcast_WAIT (if inactive = 0 then 300 else 1800)
                        (if inactive = 0 then 420 else 1920) 0 0
     \<and> (inactive \<noteq> 0 \<longrightarrow>
          ?r = (s\<lparr>device_active := False\<rparr>, [Broadcast_WAIT 1800 1920 0 0]))
     \<and> (- (2 ^ 31) \<le> ?d \<and> ?d < 2 ^ 31 \<longrightarrow>
          ?r = then_call
              (if inactive = 0 \<and> 900 \<le> ?d then check_disk_space t else skip)
              schedule_next_wakeup
              (s\<lparr>device_active := (inactive = 0)\<rparr>)
          \<and> probes (snd ?r) =
              (if inactive = 0 \<and> 900 \<le> ?d \<and> init_done_received s then 1 else 0)
          \<and> last_check_time (fst ?r) =
              (if inactive = 0 \<and> 900 \<le> ?d \<and> init_done_received s
               then t else last_check_time s))"
    using general in_range by blast
qed

text \<open>
  The theorem at work: a booted, idle module that last checked at 1000 becomes active
  at 5000 (one scan, then the request for 300 to 420 seconds), and idle again at 7000
  (the request for 1800 to 1920 seconds alone).
\<close>

theorem activity_transition_witness:
  "(0 = (0::int)) \<noteq> device_active (fst (run [Init_done, Wakeup 1000] loaded_state))
   \<and> - (2 ^ 31)
        \<le> 5000 - (last_check_time (fst (run [Init_done, Wakeup 1000] loaded_state)))
   \<and> 5000 - (last_check_time (fst (run [Init_done, Wakeup 1000] loaded_state)))
        < 2 ^ 31
   \<and> probes (snd (mce_inactivity_sig 0 5000 5001
                    (fst (run [Init_done, Wakeup 1000] loaded_state)))) = 1
   \<and> last_check_time (fst (mce_inactivity_sig 0 5000 5001
                    (fst (run [Init_done, Wakeup 1000] loaded_state)))) = 5001
   \<and> schedule_requests (snd (mce_inactivity_sig 0 5000 5001
                    (fst (run [Init_done, Wakeup 1000] loaded_state)))) = [(300, 420)]
   \<and> (1 = (0::int)) \<noteq> device_active
        (fst (run [Init_done, Wakeup 1000, Mce_inactivity 0 5000 5001] loaded_state))
   \<and> (1::int) \<noteq> 0
   \<and> mce_inactivity_sig 1 7000 7000
        (fst (run [Init_done, Wakeup 1000, Mce_inactivity 0 5000 5001] loaded_state))
      = ((fst (run [Init_done, Wakeup 1000, Mce_inactivity 0 5000 5001] loaded_state))
           \<lparr>device_active := False\<rparr>,
         [Broadcast_WAIT 1800 1920 0 0])"
proof -
  let ?s = "fst (run [Init_done, Wakeup 1000] loaded_state)"
  let ?s' = "fst (run [Init_done, Wakeup 1000, Mce_inactivity 0 5000 5001] loaded_state)"
  have s: "?s = initial_state\<lparr>init_done_received := True, last_check_time := 1000\<rparr>"
    by (simp add: handler_defs loaded_state_eq initial_state_def Let_def)
  have s': "?s' = initial_state\<lparr>init_done_received := True, device_active := True,
                                last_check_time := 5001\<rparr>"
    by (simp add: handler_defs loaded_state_eq initial_state_def int_of_time_diff_def Let_def)
  have h1: "(0 = (0::int)) \<noteq> device_active ?s"
    unfolding s by (simp add: initial_state_def)
  have h2: "- (2 ^ 31) \<le> 5000 - last_check_time ?s
     \<and> 5000 - last_check_time ?s < 2 ^ 31"
    unfolding s by (simp add: initial_state_def)
  have h3: "init_done_received ?s \<and> 900 \<le> 5000 - last_check_time ?s"
    unfolding s by (simp add: initial_state_def)
  have h4: "(1 = (0::int)) \<noteq> device_active ?s' \<and> (1::int) \<noteq> 0"
    unfolding s' by (simp add: initial_state_def)
  have "probes (snd (mce_inactivity_sig 0 5000 5001 ?s)) =
          (if (0::int) = 0 \<and> 900 \<le> 5000 - last_check_time ?s
              \<and> init_done_received ?s
           then 1 else 0)
     \<and> last_check_time (fst (mce_inactivity_sig 0 5000 5001 ?s)) =
          (if (0::int) = 0 \<and> 900 \<le> 5000 - last_check_time ?s
              \<and> init_done_received ?s
           then 5001 else last_check_time ?s)
     \<and> schedule_requests (snd (mce_inactivity_sig 0 5000 5001 ?s)) =
          [(if (0::int) = 0 then 300 else 1800, if (0::int) = 0 then 420 else 1920)]"
    using activity_transition [of 0 ?s 5000 5001] h1 h2 by blast
  then have c1: "probes (snd (mce_inactivity_sig 0 5000 5001 ?s)) = 1
     \<and> last_check_time (fst (mce_inactivity_sig 0 5000 5001 ?s)) = 5001
     \<and> schedule_requests (snd (mce_inactivity_sig 0 5000 5001 ?s)) = [(300, 420)]"
    using h3 by (simp del: run.simps)
  have c2: "mce_inactivity_sig 1 7000 7000 ?s'
      = (?s'\<lparr>device_active := False\<rparr>, [Broadcast_WAIT 1800 1920 0 0])"
    using activity_transition [of 1 ?s' 7000 7000] h4 by blast
  show ?thesis
    using h1 h2 h4 c1 c2 by blast
qed

text \<open>
  Where the claim as written fails: a module that has completed boot and has never
  checked (\<open>last_check_time = 0\<close>) becomes active when the clock reads 100. The
  difference is 100, below 900: no scan, only the wakeup request.
\<close>

theorem never_checked_activation_counterexample:
  "init_done_received (fst (run [Init_done] loaded_state))
   \<and> \<not> device_active (fst (run [Init_done] loaded_state))
   \<and> last_check_time (fst (run [Init_done] loaded_state)) = 0
   \<and> probes (snd (lifetime [Init_done])) = 0
   \<and> mce_inactivity_sig 0 100 100 (fst (run [Init_done] loaded_state)) =
       (\<lparr> init_done_received = True, device_active = True, dbus_methods_bound = False,
          dbus_signals_bound = False, last_check_time = 0 \<rparr>,
        [Broadcast_WAIT 300 420 0 0])
   \<and> probes (snd (mce_inactivity_sig 0 100 100 (fst (run [Init_done] loaded_state)))) = 0"
  by (simp add: handler_defs start_defs Let_def)

subsection \<open>C3: an activity signal that repeats the state\<close>

text \<open>
  C3. An activity signal whose value equals \<open>device_active\<close> returns the state as it was
  and makes no call at all: no wakeup request, no scan. After any activity signal,
  \<open>device_active\<close> is the value signalled, so a second signal with the same value, coming
  right after the first anywhere in a run, can be deleted from the run without changing
  its final state or its calls.
\<close>

theorem repeated_activity_signal_is_noop:
  "((inactive = 0) = device_active s \<longrightarrow> mce_inactivity_sig inactive now t s = (s, []))
   \<and> device_active (fst (mce_inactivity_sig inactive now t s)) = (inactive = 0)
   \<and> ((inactive' = 0) = (inactive = 0) \<longrightarrow>
        mce_inactivity_sig inactive' now' t' (fst (mce_inactivity_sig inactive now t s))
          = (fst (mce_inactivity_sig inactive now t s), [])
        \<and> run (pre @ [Mce_inactivity inactive now t, Mce_inactivity inactive' now' t'] @ post) s
          = run (pre @ [Mce_inactivity inactive now t] @ post) s)"
proof -
  have same: "(i = 0) = device_active z \<Longrightarrow> mce_inactivity_sig i n u z = (z, [])"
    for i n u z
    by (simp add: mce_inactivity_sig_def Let_def)
  have stored: "device_active (fst (mce_inactivity_sig inactive now t z)) = (inactive = 0)"
    for z
    by (auto simp: handler_defs Let_def)
  have second: "mce_inactivity_sig inactive' now' t' (fst (mce_inactivity_sig inactive now t z))
          = (fst (mce_inactivity_sig inactive now t z), [])"
    if "(inactive' = 0) = (inactive = 0)" for z
    using that by (intro same) (simp add: stored)
  have deleted:
    "run (pre @ [Mce_inactivity inactive now t, Mce_inactivity inactive' now' t'] @ post) s
        = run (pre @ [Mce_inactivity inactive now t] @ post) s"
    if "(inactive' = 0) = (inactive = 0)"
    using second [OF that]
    by (simp add: prod_eq_iff run_append_fst run_append_snd then_call_fst then_call_snd)
  show ?thesis
    using same stored second deleted by blast
qed

theorem repeated_activity_signal_is_noop_witness:
  "((0::int) = 0) = device_active (fst (run [Mce_inactivity 0 1000 1000] loaded_state))
   \<and> mce_inactivity_sig 0 1100 1100 (fst (run [Mce_inactivity 0 1000 1000] loaded_state))
      = (fst (run [Mce_inactivity 0 1000 1000] loaded_state), [])
   \<and> ((1::int) = 0) = ((2::int) = 0)
   \<and> run ([Init_done] @ [Mce_inactivity 2 3000 3000, Mce_inactivity 1 3100 3100]
            @ [Wakeup 4000])
          (fst (run [Mce_inactivity 0 1000 1000] loaded_state))
      = run ([Init_done] @ [Mce_inactivity 2 3000 3000] @ [Wakeup 4000])
          (fst (run [Mce_inactivity 0 1000 1000] loaded_state))"
proof -
  let ?s = "fst (run [Mce_inactivity 0 1000 1000] loaded_state)"
  have h1: "((0::int) = 0) = device_active ?s"
    by (simp add: handler_defs loaded_state_eq initial_state_def Let_def)
  have h2: "((1::int) = 0) = ((2::int) = 0)"
    by simp
  have c1: "mce_inactivity_sig 0 1100 1100 ?s = (?s, [])"
    using repeated_activity_signal_is_noop [of 0 ?s 1100 1100] h1 by blast
  have c2: "run ([Init_done] @ [Mce_inactivity 2 3000 3000, Mce_inactivity 1 3100 3100]
            @ [Wakeup 4000]) ?s
      = run ([Init_done] @ [Mce_inactivity 2 3000 3000] @ [Wakeup 4000]) ?s"
    using repeated_activity_signal_is_noop
      [of 2 ?s 3000 3000 1 3100 3100 "[Init_done]" "[Wakeup 4000]"] h2
    by blast
  show ?thesis
    using h1 h2 c1 c2 by blast
qed

subsection \<open>C4: the wakeup handler\<close>

text \<open>
  C4. The wakeup handler calls \<open>check_disk_space\<close> and then \<open>schedule_next_wakeup\<close>:
  with \<open>init_done_received\<close> set it calls the scan, stores the clock value in
  \<open>last_check_time\<close> and then sends the wakeup request; without it, it sends the wakeup
  request alone and leaves the state as it was. Either way exactly one wakeup request
  is sent. With boot completed and the device idle, the calls are one scan followed by
  the request for 1800 to 1920 seconds, and \<open>last_check_time\<close> is the clock value of the
  handler.
\<close>

theorem wakeup_probe_then_schedule:
  "handle_WAKEUP t s =
     (if init_done_received s
      then (s\<lparr>last_check_time := t\<rparr>,
            [Check_disk_space_usage,
             Broadcast_WAIT (disk_check_interval s) (disk_check_interval s + 120) 0 0])
      else (s, [Broadcast_WAIT (disk_check_interval s) (disk_check_interval s + 120) 0 0]))
   \<and> length (schedule_requests (snd (handle_WAKEUP t s))) = 1
   \<and> probes (snd (handle_WAKEUP t s)) = (if init_done_received s then 1 else 0)
   \<and> (init_done_received s \<and> \<not> device_active s \<longrightarrow>
        snd (handle_WAKEUP t s) = [Check_disk_space_usage, Broadcast_WAIT 1800 1920 0 0]
        \<and> schedule_requests (snd (handle_WAKEUP t s)) = [(1800, 1920)]
        \<and> last_check_time (fst (handle_WAKEUP t s)) = t)"
  by (simp add: handler_defs Let_def probes_def)

theorem wakeup_probe_then_schedule_witness:
  "init_done_received (fst (run [Init_done] loaded_state))
   \<and> \<not> device_active (fst (run [Init_done] loaded_state))
   \<and> snd (handle_WAKEUP 5000 (fst (run [Init_done] loaded_state)))
       = [Check_disk_space_usage, Broadcast_WAIT 1800 1920 0 0]
   \<and> schedule_requests (snd (handle_WAKEUP 5000 (fst (run [Init_done] loaded_state))))
       = [(1800, 1920)]
   \<and> last_check_time (fst (handle_WAKEUP 5000 (fst (run [Init_done] loaded_state)))) = 5000"
proof -
  let ?s = "fst (run [Init_done] loaded_state)"
  have h: "init_done_received ?s \<and> \<not> device_active ?s"
    by (simp add: handler_defs loaded_state_eq initial_state_def Let_def)
  show ?thesis
    using wakeup_probe_then_schedule [of 5000 ?s] h by blast
qed

subsection \<open>C5: the wakeup requests\<close>

lemma dispatch_schedule_requests:
  "schedule_requests (snd (dispatch e s)) = []
   \<or> schedule_requests (snd (dispatch e s)) =
       [(if device_active (fst (dispatch e s)) then 300 else 1800,
         if device_active (fst (dispatch e s)) then 420 else 1920)]"
  by (cases e) (simp_all add: handler_defs Let_def)

lemma dispatch_schedule_requests_ball:
  "\<forall>(mn, mx) \<in> set (schedule_requests (snd (dispatch e s))).
     mn = (if device_active (fst (dispatch e s)) then 300 else 1800) \<and> mx = mn + 120"
  using dispatch_schedule_requests [of e s] by auto

lemma steps_schedule_requests:
  "\<forall>st \<in> set (steps evs s). \<forall>(mn, mx) \<in> set (schedule_requests (calls st)).
     mn = (if device_active (state_after st) then 300 else 1800) \<and> mx = mn + 120"
  by (induction evs arbitrary: s) (simp_all add: dispatch_schedule_requests_ball)

lemma run_schedule_requests:
  "set (schedule_requests (snd (run evs s))) \<subseteq> {(300, 420), (1800, 1920)}"
proof (induction evs arbitrary: s)
  case Nil
  show ?case by (simp add: skip_def)
next
  case (Cons e evs)
  have "set (schedule_requests (snd (dispatch e s))) \<subseteq> {(300, 420), (1800, 1920)}"
    using dispatch_schedule_requests [of e s] by auto
  then show ?case
    using Cons.IH [of "fst (dispatch e s)"]
    by (simp add: then_call_snd schedule_requests_append)
qed

text \<open>
  C5. Every wakeup request sent in the module's life (the one of \<open>module_init\<close> and
  those of the events) has \<open>maxtime = mintime + 120\<close> and \<open>mintime\<close> 300 or 1800; the
  requests of a run from any state are among (300, 420) and (1800, 1920); in every
  step, a request sent has \<open>mintime\<close> 300 when \<open>device_active\<close> holds as the step ends
  (no handler changes it after sending) and 1800 when it does not; and
  \<open>schedule_next_wakeup\<close> itself sends exactly the request of the current
  \<open>device_active\<close>.
\<close>

theorem schedule_request_values:
  "(\<forall>(mn, mx) \<in> set (schedule_requests (snd (lifetime evs))).
      mx = mn + 120 \<and> (mn = 300 \<or> mn = 1800))
   \<and> set (schedule_requests (snd (run evs s))) \<subseteq> {(300, 420), (1800, 1920)}
   \<and> (\<forall>st \<in> set (steps evs s). \<forall>(mn, mx) \<in> set (schedule_requests (calls st)).
        mn = (if device_active (state_after st) then 300 else 1800) \<and> mx = mn + 120)
   \<and> schedule_requests (snd (schedule_next_wakeup s)) =
        [(if device_active s then 300 else 1800, if device_active s then 420 else 1920)]"
proof -
  have "set (schedule_requests (snd (lifetime evs))) \<subseteq> {(300, 420), (1800, 1920)}"
    using run_schedule_requests [of evs "fst (module_init initial_state)"]
    by (simp add: lifetime_def then_call_snd schedule_requests_append)
       (simp add: handler_defs initial_state_def Let_def)
  then have "\<forall>(mn, mx) \<in> set (schedule_requests (snd (lifetime evs))).
      mx = mn + 120 \<and> (mn = 300 \<or> mn = 1800)"
    by fastforce
  moreover have "schedule_requests (snd (schedule_next_wakeup s)) =
        [(if device_active s then 300 else 1800, if device_active s then 420 else 1920)]"
    by (simp add: handler_defs Let_def)
  ultimately show ?thesis
    using run_schedule_requests [of evs s] steps_schedule_requests [of evs s] by blast
qed

text \<open>
  The theorem at work on a life with both intervals: the module is loaded idle, becomes
  active, is woken, becomes idle again.
\<close>

theorem schedule_request_values_witness:
  "schedule_requests (snd (lifetime [Mce_inactivity 0 1000 1000, Wakeup 1300,
                                      Mce_inactivity 1 1400 1400]))
     = [(1800, 1920), (300, 420), (300, 420), (1800, 1920)]
   \<and> (300, 420) \<in> set (schedule_requests (snd (lifetime [Mce_inactivity 0 1000 1000,
                                      Wakeup 1300, Mce_inactivity 1 1400 1400])))
   \<and> (420::int) = 300 + 120
   \<and> last (steps [Mce_inactivity 0 1000 1000, Wakeup 1300] loaded_state)
        \<in> set (steps [Mce_inactivity 0 1000 1000, Wakeup 1300] loaded_state)
   \<and> (300, 420) \<in> set (schedule_requests
        (calls (last (steps [Mce_inactivity 0 1000 1000, Wakeup 1300] loaded_state))))
   \<and> device_active
        (state_after (last (steps [Mce_inactivity 0 1000 1000, Wakeup 1300] loaded_state)))"
proof -
  let ?evs = "[Mce_inactivity 0 1000 1000, Wakeup 1300, Mce_inactivity 1 1400 1400]"
  let ?st = "last (steps [Mce_inactivity 0 1000 1000, Wakeup 1300] loaded_state)"
  have h1: "schedule_requests (snd (lifetime ?evs))
     = [(1800, 1920), (300, 420), (300, 420), (1800, 1920)]"
    by (simp add: handler_defs start_defs Let_def)
  then have h2: "(300, 420) \<in> set (schedule_requests (snd (lifetime ?evs)))"
    by simp
  have h3: "?st \<in> set (steps [Mce_inactivity 0 1000 1000, Wakeup 1300] loaded_state)
     \<and> (300, 420) \<in> set (schedule_requests (calls ?st))"
    by (simp add: handler_defs loaded_state_eq initial_state_def int_of_time_diff_def Let_def)
  have c1: "(420::int) = 300 + 120"
    using schedule_request_values [of ?evs loaded_state] h2 by blast
  have "(300::int) = (if device_active (state_after ?st) then 300 else 1800)"
    using schedule_request_values [of "[Mce_inactivity 0 1000 1000, Wakeup 1300]" loaded_state]
      h3 by blast
  then have c2: "device_active (state_after ?st)"
    by (simp split: if_splits)
  show ?thesis
    using h1 h2 h3 c1 c2 by blast
qed

subsection \<open>C6: the check request\<close>

text \<open>
  C6. The check request calls \<open>check_disk_space\<close> and then builds the reply: with
  \<open>init_done_received\<close> set the calls are the scan followed by the reply, without it the
  reply alone, and the state is as it was. No wakeup request is sent, and the reply is
  the last call in both cases.
\<close>

theorem req_check_probe_then_reply:
  "req_check t s =
     (if init_done_received s
      then (s\<lparr>last_check_time := t\<rparr>, [Check_disk_space_usage, Dbus_reply_new])
      else (s, [Dbus_reply_new]))
   \<and> schedule_requests (snd (req_check t s)) = []
   \<and> last (snd (req_check t s)) = Dbus_reply_new
   \<and> (\<not> init_done_received s \<longrightarrow>
        req_check t s = (s, [Dbus_reply_new]) \<and> probes (snd (req_check t s)) = 0)"
  by (simp add: handler_defs Let_def probes_def)

theorem req_check_probe_then_reply_witness:
  "\<not> init_done_received loaded_state
   \<and> req_check 1000 loaded_state = (loaded_state, [Dbus_reply_new])
   \<and> probes (snd (req_check 1000 loaded_state)) = 0"
proof -
  have h: "\<not> init_done_received loaded_state"
    by (simp add: loaded_state_eq initial_state_def)
  show ?thesis
    using req_check_probe_then_reply [of 1000 loaded_state] h by blast
qed

subsection \<open>C7: the result relay\<close>

lemma dispatch_emitted_signals:
  "emitted_signals (snd (dispatch e s)) =
     map (\<lambda>(mount_path, blocks_percent_used).
            (diskmonitor_sig_path, diskmonitor_sig_interface,
             diskmonitor_disk_space_change_ind, mount_path, blocks_percent_used))
         (probe_results [e])"
  by (cases e) (simp_all add: handler_defs Let_def)

lemma probe_results_Cons: "probe_results (e # evs) = probe_results [e] @ probe_results evs"
  by (cases e) simp_all

text \<open>
  C7. The handler of a scan result leaves the state as it was and emits one signal,
  \<open>disk_space_change_ind\<close> on the module's signal path and interface, carrying the mount
  path and the percentage of the message as they came. Along any run from any state,
  whatever other events it holds, the signals emitted are those of the scan results of
  the run, one each, in the same order. Two results in a row give exactly their two
  signals, first one first.
\<close>

theorem result_relay_one_signal_per_result:
  "handle_DISK_SPACE mount_path blocks_percent_used s =
     (s, [Dbus_signal_emit diskmonitor_sig_path diskmonitor_sig_interface
            diskmonitor_disk_space_change_ind mount_path blocks_percent_used])
   \<and> emitted_signals (snd (run evs s)) =
       map (\<lambda>(mount_path, blocks_percent_used).
              (diskmonitor_sig_path, diskmonitor_sig_interface,
               diskmonitor_disk_space_change_ind, mount_path, blocks_percent_used))
           (probe_results evs)
   \<and> run [Disk_space p1 n1, Disk_space p2 n2] s =
       (s, [Dbus_signal_emit diskmonitor_sig_path diskmonitor_sig_interface
              diskmonitor_disk_space_change_ind p1 n1,
            Dbus_signal_emit diskmonitor_sig_path diskmonitor_sig_interface
              diskmonitor_disk_space_change_ind p2 n2])"
proof -
  have "emitted_signals (snd (run evs s)) =
       map (\<lambda>(mount_path, blocks_percent_used).
              (diskmonitor_sig_path, diskmonitor_sig_interface,
               diskmonitor_disk_space_change_ind, mount_path, blocks_percent_used))
           (probe_results evs)"
  proof (induction evs arbitrary: s)
    case Nil
    show ?case by (simp add: skip_def)
  next
    case (Cons e evs)
    show ?case
      using Cons.IH [of "fst (dispatch e s)"] dispatch_emitted_signals [of e s]
        probe_results_Cons [of e evs]
      by (simp add: then_call_snd emitted_signals_append)
  qed
  then show ?thesis
    by (simp add: handle_DISK_SPACE_def then_call_def skip_def)
qed

subsection \<open>C8: the boot-done signal\<close>

text \<open>
  C8. The boot-done handler sets \<open>init_done_received\<close> and does nothing else: it makes
  no call (no scan, no wakeup request) and leaves \<open>device_active\<close> and
  \<open>last_check_time\<close> as they were. Handling it a second time changes nothing. Once the
  signal has been handled in a run, the flag is set at the end of the run whatever
  follows; and from a state where the flag is set, every step of every run finds it
  set and leaves it set.
\<close>

theorem init_done_only_sets_flag:
  "init_done_ind s = (s\<lparr>init_done_received := True\<rparr>, [])
   \<and> device_active (fst (init_done_ind s)) = device_active s
   \<and> last_check_time (fst (init_done_ind s)) = last_check_time s
   \<and> init_done_ind (fst (init_done_ind s)) = init_done_ind s
   \<and> init_done_received (fst (run (pre @ Init_done # post) s))
   \<and> (init_done_received s \<longrightarrow>
        init_done_ind s = (s, [])
        \<and> init_done_received (fst (run evs s))
        \<and> (\<forall>st \<in> set (steps evs s).
              init_done_received (state_before st) \<and> init_done_received (state_after st)))"
proof -
  have "init_done_received s \<longrightarrow>
        init_done_ind s = (s, [])
        \<and> init_done_received (fst (run evs s))
        \<and> (\<forall>st \<in> set (steps evs s).
              init_done_received (state_before st) \<and> init_done_received (state_after st))"
    using run_init_done [of s evs] steps_init_done [of s evs]
    by (simp add: init_done_ind_def)
  then show ?thesis
    using run_init_done_after [of pre post s] by (simp add: init_done_ind_def)
qed

text \<open>
  The theorem at work: after boot, three further events (one of them a disconnect)
  leave the flag set, and the last step found it set.
\<close>

theorem init_done_only_sets_flag_witness:
  "init_done_received (fst (run [Init_done] loaded_state))
   \<and> init_done_ind (fst (run [Init_done] loaded_state))
       = (fst (run [Init_done] loaded_state), [])
   \<and> init_done_received
        (fst (run [Wakeup 1000, Dbus_disconnect False False, Mce_inactivity 0 2000 2000]
                  (fst (run [Init_done] loaded_state))))
   \<and> last (steps [Wakeup 1000, Dbus_disconnect False False, Mce_inactivity 0 2000 2000]
                  (fst (run [Init_done] loaded_state)))
        \<in> set (steps [Wakeup 1000, Dbus_disconnect False False, Mce_inactivity 0 2000 2000]
                      (fst (run [Init_done] loaded_state)))
   \<and> init_done_received (state_before
        (last (steps [Wakeup 1000, Dbus_disconnect False False, Mce_inactivity 0 2000 2000]
                     (fst (run [Init_done] loaded_state)))))
   \<and> init_done_received (state_after
        (last (steps [Wakeup 1000, Dbus_disconnect False False, Mce_inactivity 0 2000 2000]
                     (fst (run [Init_done] loaded_state)))))"
proof -
  let ?s = "fst (run [Init_done] loaded_state)"
  let ?evs = "[Wakeup 1000, Dbus_disconnect False False, Mce_inactivity 0 2000 2000]"
  have h1: "init_done_received ?s"
    by (simp add: handler_defs Let_def)
  have h2: "last (steps ?evs ?s) \<in> set (steps ?evs ?s)"
    by simp
  show ?thesis
    using init_done_only_sets_flag [of ?s "[]" "[]" ?evs] h1 h2 by blast
qed

subsection \<open>C9: the time of the last check\<close>

lemma dispatch_last_check_time:
  "(probes (snd (dispatch e s)) = 0 \<and> last_check_time (fst (dispatch e s)) = last_check_time s)
   \<or> (probes (snd (dispatch e s)) = 1
       \<and> probe_reading e = Some (last_check_time (fst (dispatch e s))))"
  by (cases e) (simp_all add: handler_defs Let_def probes_def)

lemma probe_reading_in_clock_readings:
  "probe_reading e = Some t \<Longrightarrow> t \<in> set (clock_readings e)"
  by (cases e) auto

lemma dispatch_last_check_time_cases:
  "last_check_time (fst (dispatch e s)) = last_check_time s
   \<or> last_check_time (fst (dispatch e s)) \<in> set (clock_readings e)"
  using dispatch_last_check_time [of e s] probe_reading_in_clock_readings [of e]
  by auto

lemma trajectory_Cons: "trajectory (e # evs) s = s # trajectory evs (fst (dispatch e s))"
  by (simp add: trajectory_def)

lemma last_check_time_sorted:
  "sorted (concat (map clock_readings evs)) \<Longrightarrow>
   \<forall>r \<in> set (concat (map clock_readings evs)). last_check_time s \<le> r \<Longrightarrow>
   sorted (map last_check_time (trajectory evs s))"
proof (induction evs arbitrary: s)
  case Nil
  show ?case by (simp add: trajectory_def)
next
  case (Cons e evs)
  let ?s' = "fst (dispatch e s)"
  have sorted_rest: "sorted (concat (map clock_readings evs))"
    using Cons.prems(1) by (simp add: sorted_append)
  have later:
    "\<forall>x \<in> set (clock_readings e). \<forall>r \<in> set (concat (map clock_readings evs)). x \<le> r"
    using Cons.prems(1) by (simp add: sorted_append)
  have step: "last_check_time s \<le> last_check_time ?s'"
    using dispatch_last_check_time_cases [of e s] Cons.prems(2) by auto
  have bound: "\<forall>r \<in> set (concat (map clock_readings evs)). last_check_time ?s' \<le> r"
    using dispatch_last_check_time_cases [of e s] Cons.prems(2) later by auto
  have rest: "sorted (map last_check_time (trajectory evs ?s'))"
    using Cons.IH [OF sorted_rest bound] .
  obtain zs where zs: "trajectory evs ?s' = ?s' # zs"
    by (simp add: trajectory_def)
  show ?case
    using rest step by (simp add: trajectory_Cons zs) (use order_trans in blast)
qed

text \<open>
  C9, as the code has it. \<open>last_check_time\<close> is 0 in the initial state and when the first
  event arrives. A step calls the scan at most once; a step that calls it leaves in
  \<open>last_check_time\<close> the clock value read for that scan, and a step that does not call it
  leaves \<open>last_check_time\<close> as it was. When the clock values of the events of a run,
  taken in the order in which the handlers read them, never decrease and none of them
  is below \<open>last_check_time\<close> at the start of the run, \<open>last_check_time\<close> never
  decreases along the states of the run. For the module's life, which starts at 0, this
  asks that no clock value be negative: \<^verbatim>\<open>time_t\<close> is signed, and a non-decreasing
  clock alone is not enough.
\<close>

theorem last_check_time_monotone:
  "last_check_time initial_state = 0
   \<and> last_check_time loaded_state = 0
   \<and> (probes (snd (dispatch e s)) = 0 \<or> probes (snd (dispatch e s)) = 1)
   \<and> (probes (snd (dispatch e s)) = 1 \<longrightarrow>
        probe_reading e = Some (last_check_time (fst (dispatch e s))))
   \<and> (probes (snd (dispatch e s)) = 0 \<longrightarrow>
        last_check_time (fst (dispatch e s)) = last_check_time s)
   \<and> (sorted (concat (map clock_readings evs))
        \<and> (\<forall>r \<in> set (concat (map clock_readings evs)). 0 \<le> r) \<longrightarrow>
        sorted (map last_check_time (trajectory evs loaded_state)))
   \<and> (sorted (concat (map clock_readings evs))
        \<and> (\<forall>r \<in> set (concat (map clock_readings evs)). last_check_time s \<le> r) \<longrightarrow>
        sorted (map last_check_time (trajectory evs s)))"
proof -
  have zero: "last_check_time loaded_state = 0"
    by (simp add: loaded_state_eq initial_state_def)
  have from_zero: "sorted (concat (map clock_readings evs))
        \<and> (\<forall>r \<in> set (concat (map clock_readings evs)). 0 \<le> r) \<longrightarrow>
        sorted (map last_check_time (trajectory evs loaded_state))"
    using last_check_time_sorted [of evs loaded_state] by (simp add: zero)
  have from_any: "sorted (concat (map clock_readings evs))
        \<and> (\<forall>r \<in> set (concat (map clock_readings evs)). last_check_time s \<le> r) \<longrightarrow>
        sorted (map last_check_time (trajectory evs s))"
    using last_check_time_sorted [of evs s] by blast
  have step: "(probes (snd (dispatch e s)) = 0 \<or> probes (snd (dispatch e s)) = 1)
   \<and> (probes (snd (dispatch e s)) = 1 \<longrightarrow>
        probe_reading e = Some (last_check_time (fst (dispatch e s))))
   \<and> (probes (snd (dispatch e s)) = 0 \<longrightarrow>
        last_check_time (fst (dispatch e s)) = last_check_time s)"
    using dispatch_last_check_time [of e s] by auto
  have "last_check_time initial_state = 0"
    by (simp add: initial_state_def)
  then show ?thesis
    using zero step from_zero from_any by blast
qed

text \<open>
  The theorem at work: boot, a wakeup at 1000, the device becoming active at 2000 (the
  scan returns at 2001), a check request at 2500, and the device becoming idle at 2600.
\<close>

theorem last_check_time_monotone_witness:
  "concat (map clock_readings
      [Init_done, Wakeup 1000, Mce_inactivity 0 2000 2001, Req_check 2500,
       Mce_inactivity 1 2600 2600])
     = [1000, 2000, 2001, 2500, 2600, 2600]
   \<and> sorted (concat (map clock_readings
      [Init_done, Wakeup 1000, Mce_inactivity 0 2000 2001, Req_check 2500,
       Mce_inactivity 1 2600 2600]))
   \<and> map last_check_time (trajectory
        [Init_done, Wakeup 1000, Mce_inactivity 0 2000 2001, Req_check 2500,
         Mce_inactivity 1 2600 2600] loaded_state)
       = [0, 0, 1000, 2001, 2500, 2500]
   \<and> sorted (map last_check_time (trajectory
        [Init_done, Wakeup 1000, Mce_inactivity 0 2000 2001, Req_check 2500,
         Mce_inactivity 1 2600 2600] loaded_state))
   \<and> last_check_time (fst (run [Init_done, Wakeup 1000] loaded_state)) = 1000
   \<and> sorted (map last_check_time (trajectory
        [Mce_inactivity 0 2000 2001, Req_check 2500]
        (fst (run [Init_done, Wakeup 1000] loaded_state))))
   \<and> probes (snd (dispatch (Wakeup 1000) (fst (run [Init_done] loaded_state)))) = 1
   \<and> probe_reading (Wakeup 1000)
       = Some (last_check_time (fst (dispatch (Wakeup 1000) (fst (run [Init_done] loaded_state)))))
   \<and> probes (snd (dispatch (Wakeup 1000) loaded_state)) = 0
   \<and> last_check_time (fst (dispatch (Wakeup 1000) loaded_state)) = last_check_time loaded_state"
proof -
  let ?evs = "[Init_done, Wakeup 1000, Mce_inactivity 0 2000 2001, Req_check 2500,
       Mce_inactivity 1 2600 2600]"
  let ?later = "[Mce_inactivity 0 2000 2001, Req_check 2500]"
  let ?s = "fst (run [Init_done] loaded_state)"
  let ?s1 = "fst (run [Init_done, Wakeup 1000] loaded_state)"
  have r: "concat (map clock_readings ?evs) = [1000, 2000, 2001, 2500, 2600, 2600]"
    by simp
  have h1: "sorted (concat (map clock_readings ?evs))
     \<and> (\<forall>r \<in> set (concat (map clock_readings ?evs)). 0 \<le> r)"
    by simp
  have s1: "last_check_time ?s1 = 1000"
    by (simp add: handler_defs start_defs Let_def)
  have h1': "sorted (concat (map clock_readings ?later))
     \<and> (\<forall>r \<in> set (concat (map clock_readings ?later)). last_check_time ?s1 \<le> r)"
    unfolding s1 by simp
  have h2: "probes (snd (dispatch (Wakeup 1000) ?s)) = 1"
    by (simp add: handler_defs start_defs Let_def)
  have h3: "probes (snd (dispatch (Wakeup 1000) loaded_state)) = 0"
    by (simp add: handler_defs start_defs Let_def)
  have v: "map last_check_time (trajectory ?evs loaded_state) = [0, 0, 1000, 2001, 2500, 2500]"
    by (simp add: handler_defs start_defs trajectory_def Let_def)
  have c1: "sorted (map last_check_time (trajectory ?evs loaded_state))"
    using last_check_time_monotone [of "Wakeup 1000" ?s ?evs] h1 by blast
  have c1': "sorted (map last_check_time (trajectory ?later ?s1))"
    using last_check_time_monotone [of "Wakeup 1000" ?s1 ?later] h1' by blast
  have c2: "probe_reading (Wakeup 1000)
       = Some (last_check_time (fst (dispatch (Wakeup 1000) ?s)))"
    using last_check_time_monotone [of "Wakeup 1000" ?s ?evs] h2 by blast
  have c3: "last_check_time (fst (dispatch (Wakeup 1000) loaded_state))
       = last_check_time loaded_state"
    using last_check_time_monotone [of "Wakeup 1000" loaded_state ?evs] h3 by blast
  show ?thesis
    using r h1 s1 h2 h3 v c1 c1' c2 c3 by blast
qed

text \<open>
  Where the claim as written fails: after boot, a wakeup whose \<^verbatim>\<open>time(0)\<close> returns
  \<open>-1\<close>. The clock values of the run are the single value \<open>-1\<close>, so they never
  decrease; the scan runs and \<open>last_check_time\<close> goes from 0 down to \<open>-1\<close>.
\<close>

theorem negative_clock_counterexample:
  "concat (map clock_readings [Init_done, Wakeup (- 1)]) = [- 1]
   \<and> sorted (concat (map clock_readings [Init_done, Wakeup (- 1)]))
   \<and> snd (run [Init_done, Wakeup (- 1)] loaded_state)
       = [Check_disk_space_usage, Broadcast_WAIT 1800 1920 0 0]
   \<and> map last_check_time (trajectory [Init_done, Wakeup (- 1)] loaded_state) = [0, 0, - 1]
   \<and> \<not> sorted (map last_check_time (trajectory [Init_done, Wakeup (- 1)] loaded_state))"
  by (simp add: handler_defs start_defs trajectory_def Let_def)

subsection \<open>C10: loading the module\<close>

text \<open>
  C10. \<open>module_init\<close>, run on the initial values of the module's variables, sends exactly
  one wakeup request and makes no other call: the request is for 1800 to 1920 seconds,
  since \<open>device_active\<close> is initially false. It calls no scan and leaves the variables
  at their initial values, which is the state the first event finds.
\<close>

theorem startup_schedule:
  "module_init initial_state = (initial_state, [Broadcast_WAIT 1800 1920 0 0])
   \<and> schedule_requests (snd (module_init initial_state)) = [(1800, 1920)]
   \<and> probes (snd (module_init initial_state)) = 0
   \<and> device_active initial_state = False
   \<and> last_check_time initial_state = 0
   \<and> init_done_received initial_state = False
   \<and> loaded_state = initial_state
   \<and> lifetime [] = (initial_state, [Broadcast_WAIT 1800 1920 0 0])"
  by (simp add: handler_defs start_defs Let_def)

end
